theory Spec2Isabelle
  imports Complex_Main
begin

text \<open>
  The job and event-stream part of the yt-dlp front end (\<open>server.mjs\<close>): the job registry
  with \<open>jobAppend\<close> and \<open>jobDone\<close>, the handlers of \<open>POST /api/download\<close>,
  \<open>GET /api/events\<close>, \<open>GET /api/files\<close> and \<open>GET /api/file\<close>, and the handlers of a launched
  process's events. The server runs on one thread, so every handler is a function from
  the state to the state, and the server is the transition system of the events that call
  them.
\<close>

section \<open>Strings\<close>

text \<open>
  JavaScript strings are modelled as \<^typ>\<open>string\<close> (lists of 8-bit characters, text beyond
  ASCII in UTF-8). Every character the server inspects (separators, line terminators, the
  characters of the regular expressions) is ASCII, and no byte of a multi-byte UTF-8
  sequence is ASCII, so the functions below act on such text as the source does.
\<close>

definition is_space :: "char \<Rightarrow> bool" where
  \<comment> \<open>the ASCII white space and line terminators that \<open>String.prototype.trim\<close> strips\<close>
  "is_space c = (c \<in> set [CHR '' '', CHR 0x09, CHR 0x0A, CHR 0x0B, CHR 0x0C, CHR 0x0D])"

definition trim :: "string \<Rightarrow> string" where
  "trim s = rev (dropWhile is_space (rev (dropWhile is_space s)))"

fun startsWith :: "string \<Rightarrow> string \<Rightarrow> bool" where
  "startsWith s [] = True"
| "startsWith [] (p # ps) = False"
| "startsWith (c # cs) (p # ps) = (c = p \<and> startsWith cs ps)"

fun str_includes :: "string \<Rightarrow> string \<Rightarrow> bool" where
  "str_includes [] needle = (needle = [])"
| "str_includes (c # cs) needle = (startsWith (c # cs) needle \<or> str_includes cs needle)"

fun join_with :: "string \<Rightarrow> string list \<Rightarrow> string" where
  \<comment> \<open>\<open>Array.prototype.join\<close>\<close>
  "join_with sep [] = []"
| "join_with sep [x] = x"
| "join_with sep (x # y # ys) = x @ sep @ join_with sep (y # ys)"

fun split_lines :: "string \<Rightarrow> string list" where
  \<comment> \<open>\<open>s.split(/\r?\n/)\<close>: the pieces between the matches of a line feed, or of a carriage
     return followed by a line feed; a string without a match is one piece\<close>
  "split_lines [] = [[]]"
| "split_lines (c # cs) =
     (if c = CHR 0x0A then [] # split_lines cs
      else if c = CHR 0x0D \<and> cs \<noteq> [] \<and> hd cs = CHR 0x0A then [] # split_lines (tl cs)
      else (case split_lines cs of
              [] \<Rightarrow> [[c]]
            | l # ls \<Rightarrow> (c # l) # ls))"

definition digit_char :: "nat \<Rightarrow> char" where
  "digit_char d = char_of (48 + d)"

fun nat_to_string :: "nat \<Rightarrow> string" where
  "nat_to_string n =
     (if n < 10 then [digit_char n] else nat_to_string (n div 10) @ [digit_char (n mod 10)])"

declare nat_to_string.simps [simp del]

definition int_to_string :: "int \<Rightarrow> string" where
  \<comment> \<open>the template literal \<open>`${h}`\<close> for an integral number \<open>h\<close> below \<open>10^21\<close> in magnitude
     (beyond it JavaScript switches to exponent notation)\<close>
  "int_to_string i = (if i < 0 then CHR ''-'' # nat_to_string (nat (- i)) else nat_to_string (nat i))"

section \<open>Paths\<close>

text \<open>
  \<open>path.basename\<close> and \<open>path.join\<close> belong to the Node.js runtime, not to the repository.
  They are modelled after their POSIX implementation: \<open>basename\<close> ignores trailing
  separators and returns what follows the last remaining one; \<open>join\<close> joins the non-empty
  arguments with a separator and normalises the result, resolving \<open>.\<close> and \<open>..\<close> segments.
\<close>

definition basename :: "string \<Rightarrow> string" where
  "basename p =
     rev (takeWhile (\<lambda>c. c \<noteq> CHR ''/'') (dropWhile (\<lambda>c. c = CHR ''/'') (rev p)))"

fun split_path :: "string \<Rightarrow> string list" where
  "split_path [] = [[]]"
| "split_path (c # cs) =
     (if c = CHR ''/'' then [] # split_path cs
      else (case split_path cs of
              [] \<Rightarrow> [[c]]
            | seg # segs \<Rightarrow> (c # seg) # segs))"

fun normalize_step :: "bool \<Rightarrow> string \<Rightarrow> string list \<Rightarrow> string list" where
  \<comment> \<open>one segment of \<open>normalizeString\<close>; the segments kept so far, the last one first\<close>
  "normalize_step allowAboveRoot seg kept =
     (if seg = [] \<or> seg = ''.'' then kept
      else if seg = ''..'' then
        (case kept of
           [] \<Rightarrow> (if allowAboveRoot then [''..''] else [])
         | lastSeg # below \<Rightarrow>
             (if lastSeg = ''..'' then (if allowAboveRoot then ''..'' # kept else kept)
              else below))
      else seg # kept)"

definition normalizeString :: "bool \<Rightarrow> string \<Rightarrow> string list" where
  "normalizeString allowAboveRoot p = rev (fold (normalize_step allowAboveRoot) (split_path p) [])"

definition path_normalize :: "string \<Rightarrow> string" where
  "path_normalize p =
     (if p = [] then ''.''
      else
        let isAbsolute = (hd p = CHR ''/'');
            trailingSeparator = (last p = CHR ''/'');
            res = join_with ''/'' (normalizeString (\<not> isAbsolute) p)
        in if res = [] then (if isAbsolute then ''/'' else if trailingSeparator then ''./'' else ''.'')
           else (if isAbsolute then ''/'' else []) @ res @ (if trailingSeparator then ''/'' else []))"

definition path_join :: "string list \<Rightarrow> string" where
  "path_join args =
     (let joined = join_with ''/'' (filter (\<lambda>a. a \<noteq> []) args)
      in if joined = [] then ''.'' else path_normalize joined)"

definition unsafe_char :: "char \<Rightarrow> bool" where
  \<comment> \<open>the character class \<open>[<>:"/\\|?*\u0000-\u001F]\<close>\<close>
  "unsafe_char c =
     (c \<in> set [CHR ''<'', CHR ''>'', CHR '':'', CHR 0x22, CHR ''/'', CHR 0x5C, CHR ''|'',
               CHR ''?'', CHR ''*'']
      \<or> (of_char c :: nat) < 32)"

definition safeBasename :: "string \<Rightarrow> string" where
  "safeBasename name = map (\<lambda>c. if unsafe_char c then CHR ''_'' else c) (basename name)"

definition inside_dir :: "string \<Rightarrow> string \<Rightarrow> bool" where
  \<comment> \<open>\<open>p\<close> names something below the directory \<open>dir\<close>\<close>
  "inside_dir dir p = (startsWith p (dir @ ''/'') \<and> length (dir @ ''/'') < length p)"

section \<open>Identifiers and requests\<close>

definition id_char :: "char \<Rightarrow> bool" where
  \<comment> \<open>the character class \<open>[a-zA-Z0-9_-]\<close>\<close>
  "id_char c =
     (let n = (of_char c :: nat)
      in (97 \<le> n \<and> n \<le> 122) \<or> (65 \<le> n \<and> n \<le> 90) \<or> (48 \<le> n \<and> n \<le> 57)
         \<or> c = CHR ''_'' \<or> c = CHR ''-'')"

definition isValidYtId :: "string \<Rightarrow> bool" where
  "isValidYtId ident = (length ident = 11 \<and> list_all id_char ident)"

definition buildVideoUrlFromId :: "string \<Rightarrow> string" where
  "buildVideoUrlFromId ident = ''https://www.youtube.com/watch?v='' @ ident"

datatype jsnumber = Num rat | NaN | PosInfinity | NegInfinity

text \<open>
  The body of \<open>POST /api/download\<close> after \<open>JSON.parse\<close> and the handler's conversions:
  \<open>req_url\<close> is \<open>String(body.url || "")\<close>, \<open>req_ids\<close> the strings of \<open>body.ids\<close> (an element
  that is not a string never passes \<open>isValidYtId\<close>), \<open>req_quality\<close> is \<open>Number(body.quality)\<close>
  or \<open>None\<close> for \<open>null\<close> and \<open>undefined\<close>, \<open>req_cookiesFromBrowser\<close> is
  \<open>String(body.cookiesFromBrowser)\<close> or \<open>None\<close> when the field is falsy. The handler never
  reads \<open>body.videoOnly\<close>; the field is kept to say so.
\<close>

record request =
  req_url :: string
  req_ids :: "string list"
  req_quality :: "jsnumber option"
  req_mp3 :: bool
  req_videoOnly :: bool
  req_cookiesFromBrowser :: "string option"

record config =
  ytDlpCommand :: string
  baseDownloadsDir :: string \<comment> \<open>\<open>downloadsBaseDir || getDefaultDownloadsDir()\<close>\<close>
  tmpdir :: string \<comment> \<open>\<open>os.tmpdir()\<close>\<close>

datatype spawn_outcome = SpawnThrows string | Spawned

text \<open>What the environment decides for one download request: the random job identifier,
  whether writing the identifier list throws, and whether \<open>spawnYtDlp\<close> throws (with the
  error's message).\<close>

record io =
  io_rand :: string
  io_write_error :: "string option"
  io_spawn :: spawn_outcome

section \<open>Jobs and the server state\<close>

datatype sse_event = Log string | Done int

text \<open>A job as the handler creates it, without \<open>createdAt\<close>, a time stamp that nothing
  reads. \<open>job_done\<close> is the exit code of \<open>job.done\<close>, \<open>None\<close> while the field is unset.\<close>

record job =
  job_id :: string
  lines :: "string list"
  sseClients :: "nat set"
  job_done :: "int option"
  downloadsDir :: "string option"

record child =
  child_job :: string
  child_tmp :: "string option"
  child_args :: "string list"

text \<open>
  The registry \<open>jobs\<close>, and what the handlers' closures and the runtime hold: for every
  response object (numbered in order of creation) the events written to it with \<open>sseSend\<close>
  and whether \<open>end()\<close> was called, the temporary files written, and the launched processes
  with the job identifier and temporary path their handlers closed over.
\<close>

record state =
  jobs :: "string \<rightharpoonup> job"
  sent :: "nat \<Rightarrow> sse_event list"
  ended :: "nat set"
  next_res :: nat
  tmp_files :: "string \<rightharpoonup> string"
  children :: "child list"

definition init_state :: state where
  "init_state = \<lparr>jobs = Map.empty, sent = (\<lambda>_. []), ended = {}, next_res = 0,
                  tmp_files = Map.empty, children = []\<rparr>"

definition broadcast :: "nat set \<Rightarrow> sse_event \<Rightarrow> (nat \<Rightarrow> sse_event list) \<Rightarrow> nat \<Rightarrow> sse_event list" where
  \<comment> \<open>\<open>for (const client of clients) sseSend(client, ...)\<close>\<close>
  "broadcast clients ev out = (\<lambda>c. if c \<in> clients then out c @ [ev] else out c)"

definition jobAppend :: "string \<Rightarrow> string \<Rightarrow> state \<Rightarrow> state" where
  "jobAppend jobId line s =
     (case jobs s jobId of
        None \<Rightarrow> s
      | Some job \<Rightarrow>
          let pushed = lines job @ [line];
              kept = (if length pushed > 2000 then drop (length pushed - 2000) pushed else pushed)
          in s\<lparr>jobs := (jobs s)(jobId \<mapsto> job\<lparr>lines := kept\<rparr>),
               sent := broadcast (sseClients job) (Log line) (sent s)\<rparr>)"

definition jobDone :: "string \<Rightarrow> int \<Rightarrow> state \<Rightarrow> state" where
  "jobDone jobId exitCode s =
     (case jobs s jobId of
        None \<Rightarrow> s
      | Some job \<Rightarrow>
          s\<lparr>jobs := (jobs s)(jobId \<mapsto> job\<lparr>job_done := Some exitCode, sseClients := {}\<rparr>),
            sent := broadcast (sseClients job) (Done exitCode) (sent s),
            ended := ended s \<union> sseClients job\<rparr>)"

section \<open>The request handlers\<close>

datatype response =
    BadRequest string \<comment> \<open>400 \<open>{error}\<close>\<close>
  | InternalError string \<comment> \<open>500 \<open>{error}\<close>\<close>
  | NotFound \<comment> \<open>404\<close>
  | Accepted string nat "string option" \<comment> \<open>200 \<open>{jobId, count, downloadsDir?}\<close>\<close>
  | FileList "string list" "string list option" \<comment> \<open>200 \<open>{files, downloadUrls?}\<close>\<close>
  | FileStream string string \<comment> \<open>200, the path streamed and the attachment's file name\<close>
  | EventStream nat \<comment> \<open>200, a server-sent event stream on the numbered response\<close>

fun status :: "response \<Rightarrow> nat" where
  "status (BadRequest m) = 400"
| "status (InternalError m) = 500"
| "status NotFound = 404"
| "status (Accepted j n d) = 200"
| "status (FileList fs us) = 200"
| "status (FileStream p n) = 200"
| "status (EventStream r) = 200"

subsection \<open>\<open>POST /api/download\<close>\<close>

definition format_selector :: "int \<Rightarrow> string" where
  "format_selector h =
     ''bestvideo[height<='' @ int_to_string h @ '']+bestaudio/best[height<='' @ int_to_string h @ '']''"

definition quality_args :: "jsnumber option \<Rightarrow> string list" where
  \<comment> \<open>\<open>if (requestedQuality && Number.isFinite(requestedQuality))\<close>\<close>
  "quality_args q =
     (case q of
        Some (Num r) \<Rightarrow> (if r \<noteq> 0 then [''-f'', format_selector \<lfloor>r\<rfloor>] else [])
      | _ \<Rightarrow> [])"

definition cookies_allowed :: "string list" where
  "cookies_allowed = [''chrome'', ''edge'', ''firefox'']"

definition download_args ::
  "string \<Rightarrow> string \<Rightarrow> request \<Rightarrow> string \<Rightarrow> string option \<Rightarrow> string list" where
  "download_args archivePath jobDir body url tmpListPath =
     (let args = [''-i'', ''--yes-playlist'', ''--newline'', ''--no-warnings'',
                  ''--download-archive'', archivePath, ''-P'', jobDir,
                  ''-o'', ''%(upload_date)s - %(title)s [%(id)s].%(ext)s''];
          args = args @ (if req_mp3 body then [''--extract-audio'', ''--audio-format'', ''mp3'']
                         else [''--merge-output-format'', ''mp4'']);
          args = args @ quality_args (req_quality body);
          args = args @ (case tmpListPath of Some p \<Rightarrow> [''-a'', p] | None \<Rightarrow> [url])
      in case req_cookiesFromBrowser body of
           None \<Rightarrow> args
         | Some c \<Rightarrow> (if c = [] then args else [''--cookies-from-browser'', c] @ args))"

definition unlink_tmp :: "string option \<Rightarrow> state \<Rightarrow> state" where
  \<comment> \<open>\<open>if (tmpListPath) { try { fs.unlinkSync(tmpListPath) } catch {} }\<close>\<close>
  "unlink_tmp tmpListPath s =
     (case tmpListPath of
        None \<Rightarrow> s
      | Some p \<Rightarrow> s\<lparr>tmp_files := (tmp_files s)(p := None)\<rparr>)"

definition launch_failed_line :: "config \<Rightarrow> string \<Rightarrow> string" where
  "launch_failed_line cfg msg =
     trim (''Failed to start yt-dlp ('' @ ytDlpCommand cfg @ ''). Set YTDLP_BIN to full path. '' @ msg)"

definition register_job :: "string \<Rightarrow> string \<Rightarrow> state \<Rightarrow> state" where
  \<comment> \<open>\<open>jobs.set(jobId, job)\<close> with the fresh job, and \<open>job.downloadsDir = jobDir\<close>\<close>
  "register_job jobId jobDir s =
     s\<lparr>jobs := (jobs s)(jobId \<mapsto>
          \<lparr>job_id = jobId, lines = [], sseClients = {}, job_done = None,
           downloadsDir = Some jobDir\<rparr>)\<rparr>"

definition write_tmp :: "string option \<Rightarrow> string \<Rightarrow> state \<Rightarrow> state" where
  \<comment> \<open>\<open>fs.writeFileSync(tmpListPath, urlsList, "utf8")\<close> in bulk mode\<close>
  "write_tmp tmpListPath urlsList s =
     (case tmpListPath of
        None \<Rightarrow> s
      | Some p \<Rightarrow> s\<lparr>tmp_files := (tmp_files s)(p \<mapsto> urlsList)\<rparr>)"

definition add_child :: "child \<Rightarrow> state \<Rightarrow> state" where
  \<comment> \<open>the launched process, with what its \<open>data\<close>, \<open>error\<close> and \<open>close\<close> handlers closed over\<close>
  "add_child ch s = s\<lparr>children := children s @ [ch]\<rparr>"

text \<open>The handler, from the parsed body on. \<open>fs.mkdirSync\<close> is left out: its failure is
  ignored and the directory's content is a parameter of the routes that read it.\<close>

definition download :: "config \<Rightarrow> request option \<Rightarrow> io \<Rightarrow> state \<Rightarrow> response \<times> state" where
  "download cfg parsed env s =
     (case parsed of
        None \<Rightarrow> (BadRequest ''Invalid JSON body'', s)
      | Some body \<Rightarrow>
          let url = trim (req_url body);
              validIds = filter isValidYtId (req_ids body);
              isBulk = (validIds \<noteq> [])
          in if \<not> isBulk \<and> url = [] then (BadRequest ''Missing url'', s)
             else
               let jobId = io_rand env;
                   jobDir = path_join [baseDownloadsDir cfg, ''ytdlp-ui'', jobId];
                   s1 = register_job jobId jobDir s;
                   archivePath = path_join [baseDownloadsDir cfg, ''ytdlp-ui'', ''.ytdlp-archive.txt''];
                   tmpListPath = (if isBulk
                                  then Some (path_join [tmpdir cfg, ''ytdlp-ui-'' @ jobId @ ''.txt''])
                                  else None);
                   urlsList = join_with [CHR 0x0A] (map buildVideoUrlFromId validIds) @ [CHR 0x0A];
                   count = (if isBulk then length validIds else 1)
               in case (if isBulk then io_write_error env else None) of
                    Some e \<Rightarrow> (InternalError (if e = [] then ''Unexpected error'' else e), s1)
                  | None \<Rightarrow>
                      let s2 = write_tmp tmpListPath urlsList s1;
                          cookies = (case req_cookiesFromBrowser body of None \<Rightarrow> [] | Some c \<Rightarrow> c)
                      in if cookies \<noteq> [] \<and> cookies \<notin> set cookies_allowed
                         then (BadRequest ''cookiesFromBrowser must be one of: chrome, edge, firefox'', s2)
                         else
                           (case io_spawn env of
                              SpawnThrows msg \<Rightarrow>
                                (Accepted jobId count None,
                                 jobDone jobId (- 1)
                                   (jobAppend jobId (launch_failed_line cfg msg)
                                      (unlink_tmp tmpListPath s2)))
                            | Spawned \<Rightarrow>
                                (Accepted jobId count (Some jobDir),
                                 add_child
                                   \<lparr>child_job = jobId, child_tmp = tmpListPath,
                                    child_args = download_args archivePath jobDir body url tmpListPath\<rparr>
                                   s2)))"

subsection \<open>The launched process's events\<close>

definition onData :: "string \<Rightarrow> string \<Rightarrow> state \<Rightarrow> state" where
  \<comment> \<open>\<open>String(chunk).split(/\r?\n/).filter(Boolean)\<close>, each line appended\<close>
  "onData jobId chunk s = fold (jobAppend jobId) (filter (\<lambda>l. l \<noteq> []) (split_lines chunk)) s"

definition spawn_error_line :: "string \<Rightarrow> string \<Rightarrow> string" where
  "spawn_error_line code msg = trim (''yt-dlp spawn error: '' @ code @ '' '' @ msg)"

definition onError :: "child \<Rightarrow> string \<Rightarrow> string \<Rightarrow> state \<Rightarrow> state" where
  "onError ch code msg s =
     jobDone (child_job ch) (- 1)
       (jobAppend (child_job ch) (spawn_error_line code msg) (unlink_tmp (child_tmp ch) s))"

definition onClose :: "child \<Rightarrow> int option \<Rightarrow> state \<Rightarrow> state" where
  \<comment> \<open>\<open>code\<close> is \<open>None\<close> when the runtime passes \<open>null\<close>\<close>
  "onClose ch code s =
     jobDone (child_job ch) (case code of Some n \<Rightarrow> n | None \<Rightarrow> - 1) (unlink_tmp (child_tmp ch) s)"

subsection \<open>\<open>GET /api/list\<close>: the lines of the process's output\<close>

text \<open>The \<open>data\<close> handler of the listing keeps a buffer: \<open>buffer += chunk\<close>, the buffer is split,
  the last piece becomes the new buffer (\<open>lines.pop() || ""\<close>) and the other pieces are the
  lines it handles, in order. The state is the buffer and the lines handled so far.\<close>

definition list_onData :: "string \<Rightarrow> string \<times> string list \<Rightarrow> string \<times> string list" where
  "list_onData chunk st =
     (let pieces = split_lines (fst st @ chunk)
      in (last pieces, snd st @ butlast pieces))"

subsection \<open>\<open>GET /api/events/:jobId\<close>\<close>

definition slice_last :: "nat \<Rightarrow> 'a list \<Rightarrow> 'a list" where
  \<comment> \<open>\<open>xs.slice(-n)\<close>\<close>
  "slice_last n xs = drop (length xs - n) xs"

definition events_route :: "string \<Rightarrow> state \<Rightarrow> response \<times> state" where
  "events_route jobId s =
     (case jobs s jobId of
        None \<Rightarrow> (BadRequest ''Unknown jobId'', s)
      | Some job \<Rightarrow>
          let res = next_res s;
              s1 = s\<lparr>next_res := Suc res,
                     sent := (sent s)(res := sent s res @ map Log (slice_last 250 (lines job)))\<rparr>
          in case job_done job of
               Some exitCode \<Rightarrow>
                 (EventStream res,
                  s1\<lparr>sent := (sent s1)(res := sent s1 res @ [Done exitCode]),
                     ended := insert res (ended s1)\<rparr>)
             | None \<Rightarrow>
                 (EventStream res,
                  s1\<lparr>jobs := (jobs s1)(jobId \<mapsto> job\<lparr>sseClients := insert res (sseClients job)\<rparr>)\<rparr>))"

definition detach :: "string \<Rightarrow> nat \<Rightarrow> state \<Rightarrow> state" where
  \<comment> \<open>the request's \<open>close\<close> handler: \<open>job.sseClients.delete(res)\<close>\<close>
  "detach jobId res s =
     (case jobs s jobId of
        None \<Rightarrow> s
      | Some job \<Rightarrow> s\<lparr>jobs := (jobs s)(jobId \<mapsto> job\<lparr>sseClients := sseClients job - {res}\<rparr>)\<rparr>)"

subsection \<open>\<open>GET /api/files/:jobId\<close> and \<open>GET /api/file/:jobId/:name\<close>\<close>


definition file_route :: "(string \<Rightarrow> bool) \<Rightarrow> string \<Rightarrow> string \<Rightarrow> state \<Rightarrow> response" where
  \<comment> \<open>\<open>rawName\<close> is the path's second group after \<open>decodeURIComponent\<close>\<close>
  "file_route exists jobId rawName s =
     (let fileName = safeBasename rawName
      in case jobs s jobId of
           None \<Rightarrow> BadRequest ''Unknown jobId''
         | Some job \<Rightarrow>
             (case downloadsDir job of
                None \<Rightarrow> BadRequest ''No downloads for job''
              | Some dir \<Rightarrow>
                  if dir = [] then BadRequest ''No downloads for job''
                  else
                    let fullPath = path_join [dir, fileName]
                    in if \<not> exists fullPath then NotFound
                       else FileStream fullPath (safeBasename fileName)))"

section \<open>The server as a transition system\<close>

text \<open>
  The events that call a handler: a download request with its parsed body (\<open>None\<close> when
  the body is not JSON) and what the environment answers; a request for a job's event
  stream; the \<open>close\<close> of such a request; and the \<open>data\<close>, \<open>error\<close> and \<open>close\<close> events of a
  launched process, named by its position among the launched ones. The \<open>close\<close> handler
  of an event stream holds the job object; here it finds the job by its identifier, which
  is the same object unless the random generator has repeated the identifier since.
\<close>

datatype event =
    Download "request option" io
  | Events string
  | ReqClose string nat
  | ChildData nat string
  | ChildError nat string string
  | ChildClose nat "int option"

definition step :: "config \<Rightarrow> event \<Rightarrow> state \<Rightarrow> state" where
  "step cfg ev s =
     (case ev of
        Download parsed env \<Rightarrow> snd (download cfg parsed env s)
      | Events jobId \<Rightarrow> snd (events_route jobId s)
      | ReqClose jobId res \<Rightarrow> detach jobId res s
      | ChildData h chunk \<Rightarrow>
          (if h < length (children s) then onData (child_job (children s ! h)) chunk s else s)
      | ChildError h code msg \<Rightarrow>
          (if h < length (children s) then onError (children s ! h) code msg s else s)
      | ChildClose h code \<Rightarrow>
          (if h < length (children s) then onClose (children s ! h) code s else s))"

definition run :: "config \<Rightarrow> event list \<Rightarrow> state \<Rightarrow> state" where
  "run cfg evs s = fold (step cfg) evs s"

section \<open>Observing a job\<close>

text \<open>What the registry holds for a job identifier: whether the job is known, its
  attached listeners, its terminal result and its retained log.\<close>

definition known :: "state \<Rightarrow> string \<Rightarrow> bool" where
  "known s j = (jobs s j \<noteq> None)"

definition listeners :: "state \<Rightarrow> string \<Rightarrow> nat set" where
  "listeners s j = (case jobs s j of None \<Rightarrow> {} | Some job \<Rightarrow> sseClients job)"

definition terminal :: "state \<Rightarrow> string \<Rightarrow> int option" where
  "terminal s j = (case jobs s j of None \<Rightarrow> None | Some job \<Rightarrow> job_done job)"

definition retained :: "state \<Rightarrow> string \<Rightarrow> string list" where
  "retained s j = (case jobs s j of None \<Rightarrow> [] | Some job \<Rightarrow> lines job)"

fun is_log :: "sse_event \<Rightarrow> bool" where
  "is_log (Log l) = True"
| "is_log (Done c) = False"

fun reuses :: "string \<Rightarrow> event \<Rightarrow> bool" where
  \<comment> \<open>a download request for which the random generator repeats the identifier \<open>j\<close>\<close>
  "reuses j (Download parsed env) = (io_rand env = j)"
| "reuses j ev = False"

text \<open>
  The states the server can be in. A response object that does not exist yet has received
  nothing and listens to nothing; a listener has received log events only, and its job is
  not terminal; a listener is attached to one job; a log holds at most 2000 lines; a
  launched process belongs to a job of the registry. The initial state is such a state,
  and every function of the server keeps the property (\<open>wf_run\<close> below).
\<close>

definition wf_state :: "state \<Rightarrow> bool" where
  "wf_state s =
     ((\<forall>c. next_res s \<le> c \<longrightarrow> sent s c = [] \<and> (\<forall>j. c \<notin> listeners s j))
      \<and> (\<forall>j c. c \<in> listeners s j \<longrightarrow> list_all is_log (sent s c) \<and> terminal s j = None)
      \<and> (\<forall>j j' c. c \<in> listeners s j \<longrightarrow> c \<in> listeners s j' \<longrightarrow> j = j')
      \<and> (\<forall>j. length (retained s j) \<le> 2000)
      \<and> (\<forall>ch. ch \<in> set (children s) \<longrightarrow> known s (child_job ch)))"

section \<open>Requests that reach the launch\<close>

text \<open>The handler's checks on a parsed body, in its order: a URL or a valid identifier is
  present; in bulk mode the identifier list could be written; the cookie source, when
  present, is one of the allowed browsers.\<close>

definition has_target :: "request \<Rightarrow> bool" where
  "has_target body = (filter isValidYtId (req_ids body) \<noteq> [] \<or> trim (req_url body) \<noteq> [])"

definition list_written :: "request \<Rightarrow> io \<Rightarrow> bool" where
  "list_written body env = (filter isValidYtId (req_ids body) = [] \<or> io_write_error env = None)"

definition cookies_ok :: "request \<Rightarrow> bool" where
  "cookies_ok body =
     (case req_cookiesFromBrowser body of
        None \<Rightarrow> True
      | Some c \<Rightarrow> c = [] \<or> c \<in> set cookies_allowed)"

definition item_count :: "request \<Rightarrow> nat" where
  \<comment> \<open>\<open>isBulk ? validIds.length : 1\<close>\<close>
  "item_count body =
     (if filter isValidYtId (req_ids body) \<noteq> [] then length (filter isValidYtId (req_ids body))
      else 1)"

section \<open>Scenarios\<close>

text \<open>Concrete inputs, taken from the repository's tests where they have one: the
  configuration of a server, what the environment answers, and request bodies.\<close>

definition example_config :: config where
  "example_config =
     \<lparr>ytDlpCommand = ''yt-dlp'', baseDownloadsDir = ''/home/user/Downloads'', tmpdir = ''/tmp''\<rparr>"

definition spawned_io :: io where
  "spawned_io = \<lparr>io_rand = ''0123456789abcdef'', io_write_error = None, io_spawn = Spawned\<rparr>"

definition throwing_io :: io where
  "throwing_io =
     \<lparr>io_rand = ''0123456789abcdef'', io_write_error = None,
      io_spawn = SpawnThrows ''spawn yt-dlp ENOENT''\<rparr>"

definition videoOnly_request :: request where
  \<comment> \<open>\<open>{url: "https://example.com/watch?v=f4g1xtyY3uo", quality: 720, mp3: false, videoOnly: true}\<close>\<close>
  "videoOnly_request =
     \<lparr>req_url = ''https://example.com/watch?v=f4g1xtyY3uo'', req_ids = [],
      req_quality = Some (Num 720), req_mp3 = False, req_videoOnly = True,
      req_cookiesFromBrowser = None\<rparr>"

definition bulk_safari_request :: request where
  \<comment> \<open>\<open>{ids: ["f4g1xtyY3uo"], cookiesFromBrowser: "safari"}\<close>\<close>
  "bulk_safari_request =
     \<lparr>req_url = [], req_ids = [''f4g1xtyY3uo''], req_quality = None, req_mp3 = False,
      req_videoOnly = False, req_cookiesFromBrowser = Some ''safari''\<rparr>"

definition parent_exists :: "string \<Rightarrow> bool" where
  \<comment> \<open>a file system in which the job directory of \<open>one_job_state\<close> and its parents exist\<close>
  "parent_exists p =
     (p \<in> set [''/home/user/Downloads'', ''/home/user/Downloads/ytdlp-ui'',
                ''/home/user/Downloads/ytdlp-ui/0123456789abcdef''])"

definition one_job_state :: state where
  \<comment> \<open>a fresh server after one accepted download request\<close>
  "one_job_state = snd (download example_config (Some videoOnly_request) spawned_io init_state)"

definition many_lines_state :: state where
  \<comment> \<open>the job of \<open>one_job_state\<close> after 300 lines of output\<close>
  "many_lines_state =
     fold (jobAppend ''0123456789abcdef'') (map nat_to_string [0..<300]) one_job_state"

definition listening_state :: state where
  \<comment> \<open>the job of \<open>one_job_state\<close> with one listener, which has seen one line\<close>
  "listening_state =
     jobAppend ''0123456789abcdef'' ''[download] 10%''
       (snd (events_route ''0123456789abcdef'' one_job_state))"

section \<open>The handlers, seen through the observers\<close>

lemmas observers = listeners_def terminal_def retained_def known_def

lemma jobAppend_obs [simp]:
  "next_res (jobAppend j l s) = next_res s"
  "sent (jobAppend j l s) c = (if c \<in> listeners s j then sent s c @ [Log l] else sent s c)"
  "ended (jobAppend j l s) = ended s"
  "listeners (jobAppend j l s) j' = listeners s j'"
  "terminal (jobAppend j l s) j' = terminal s j'"
  "known (jobAppend j l s) j' = known s j'"
  "retained (jobAppend j l s) j' =
     (if j' = j \<and> known s j then slice_last 2000 (retained s j @ [l]) else retained s j')"
  "tmp_files (jobAppend j l s) = tmp_files s"
  "children (jobAppend j l s) = children s"
  by (auto simp: jobAppend_def observers broadcast_def slice_last_def Let_def split: option.splits)

lemma jobDone_obs [simp]:
  "next_res (jobDone j code s) = next_res s"
  "sent (jobDone j code s) c = (if c \<in> listeners s j then sent s c @ [Done code] else sent s c)"
  "ended (jobDone j code s) = ended s \<union> listeners s j"
  "listeners (jobDone j code s) j' = (if j' = j then {} else listeners s j')"
  "terminal (jobDone j code s) j' = (if j' = j \<and> known s j then Some code else terminal s j')"
  "known (jobDone j code s) j' = known s j'"
  "retained (jobDone j code s) j' = retained s j'"
  "tmp_files (jobDone j code s) = tmp_files s"
  "children (jobDone j code s) = children s"
  by (auto simp: jobDone_def observers broadcast_def split: option.splits)

lemma unlink_tmp_obs [simp]:
  "next_res (unlink_tmp p s) = next_res s"
  "sent (unlink_tmp p s) = sent s"
  "ended (unlink_tmp p s) = ended s"
  "listeners (unlink_tmp p s) = listeners s"
  "terminal (unlink_tmp p s) = terminal s"
  "known (unlink_tmp p s) = known s"
  "retained (unlink_tmp p s) = retained s"
  "children (unlink_tmp p s) = children s"
  by (auto simp: unlink_tmp_def observers fun_eq_iff split: option.splits)

lemma write_tmp_obs [simp]:
  "next_res (write_tmp p u s) = next_res s"
  "sent (write_tmp p u s) = sent s"
  "ended (write_tmp p u s) = ended s"
  "listeners (write_tmp p u s) = listeners s"
  "terminal (write_tmp p u s) = terminal s"
  "known (write_tmp p u s) = known s"
  "retained (write_tmp p u s) = retained s"
  "children (write_tmp p u s) = children s"
  by (auto simp: write_tmp_def observers fun_eq_iff split: option.splits)

lemma add_child_obs [simp]:
  "next_res (add_child ch s) = next_res s"
  "sent (add_child ch s) = sent s"
  "ended (add_child ch s) = ended s"
  "listeners (add_child ch s) = listeners s"
  "terminal (add_child ch s) = terminal s"
  "known (add_child ch s) = known s"
  "retained (add_child ch s) = retained s"
  "tmp_files (add_child ch s) = tmp_files s"
  "children (add_child ch s) = children s @ [ch]"
  by (auto simp: add_child_def observers fun_eq_iff)

lemma register_job_obs [simp]:
  "next_res (register_job j d s) = next_res s"
  "sent (register_job j d s) = sent s"
  "ended (register_job j d s) = ended s"
  "listeners (register_job j d s) j' = (if j' = j then {} else listeners s j')"
  "terminal (register_job j d s) j' = (if j' = j then None else terminal s j')"
  "known (register_job j d s) j' = (j' = j \<or> known s j')"
  "retained (register_job j d s) j' = (if j' = j then [] else retained s j')"
  "tmp_files (register_job j d s) = tmp_files s"
  "children (register_job j d s) = children s"
  by (auto simp: register_job_def observers)

lemma detach_obs [simp]:
  "next_res (detach j c s) = next_res s"
  "sent (detach j c s) = sent s"
  "ended (detach j c s) = ended s"
  "listeners (detach j c s) j' = (if j' = j then listeners s j - {c} else listeners s j')"
  "terminal (detach j c s) j' = terminal s j'"
  "known (detach j c s) j' = known s j'"
  "retained (detach j c s) j' = retained s j'"
  "tmp_files (detach j c s) = tmp_files s"
  "children (detach j c s) = children s"
  by (auto simp: detach_def observers split: option.splits)

lemma events_route_obs [simp]:
  "next_res (snd (events_route j s)) = (if known s j then Suc (next_res s) else next_res s)"
  "sent (snd (events_route j s)) c =
     (if known s j \<and> c = next_res s
      then sent s c @ map Log (slice_last 250 (retained s j))
             @ (case terminal s j of None \<Rightarrow> [] | Some code \<Rightarrow> [Done code])
      else sent s c)"
  "listeners (snd (events_route j s)) j' =
     (if j' = j \<and> known s j \<and> terminal s j = None then insert (next_res s) (listeners s j)
      else listeners s j')"
  "terminal (snd (events_route j s)) j' = terminal s j'"
  "known (snd (events_route j s)) j' = known s j'"
  "retained (snd (events_route j s)) j' = retained s j'"
  "tmp_files (snd (events_route j s)) = tmp_files s"
  "children (snd (events_route j s)) = children s"
  by (auto simp: events_route_def observers Let_def split: option.splits)

section \<open>Every reachable state is well formed\<close>

lemma length_slice_last: "length (slice_last n xs) \<le> n"
  by (simp add: slice_last_def)

lemma wf_init: "wf_state init_state"
  by (simp add: wf_state_def init_state_def observers)

lemma wf_jobAppend: "wf_state s \<Longrightarrow> wf_state (jobAppend j l s)"
  by (auto simp: wf_state_def length_slice_last)

lemma wf_jobDone: "wf_state s \<Longrightarrow> wf_state (jobDone j code s)"
  by (auto simp: wf_state_def)

lemma wf_unlink_tmp: "wf_state s \<Longrightarrow> wf_state (unlink_tmp p s)"
  by (auto simp: wf_state_def)

lemma wf_write_tmp: "wf_state s \<Longrightarrow> wf_state (write_tmp p u s)"
  by (auto simp: wf_state_def)

lemma wf_add_child: "wf_state s \<Longrightarrow> known s (child_job ch) \<Longrightarrow> wf_state (add_child ch s)"
  by (auto simp: wf_state_def)

lemma wf_register_job: "wf_state s \<Longrightarrow> wf_state (register_job j d s)"
  by (auto simp: wf_state_def)

lemma wf_detach: "wf_state s \<Longrightarrow> wf_state (detach j c s)"
  by (auto simp: wf_state_def)

lemma wf_events_route: "wf_state s \<Longrightarrow> wf_state (snd (events_route j s))"
  by (auto simp: wf_state_def list_all_iff split: option.splits)

lemma wf_download: "wf_state s \<Longrightarrow> wf_state (snd (download cfg parsed env s))"
  by (auto simp: download_def Let_def
           intro!: wf_jobDone wf_jobAppend wf_unlink_tmp wf_write_tmp wf_register_job wf_add_child
           split: option.splits spawn_outcome.splits)

lemma wf_fold_jobAppend: "wf_state s \<Longrightarrow> wf_state (fold (jobAppend j) ls s)"
  by (induction ls arbitrary: s) (auto intro: wf_jobAppend)

lemma wf_step: "wf_state s \<Longrightarrow> wf_state (step cfg ev s)"
  by (cases ev)
     (auto simp: step_def onData_def onError_def onClose_def
           intro!: wf_download wf_events_route wf_detach wf_fold_jobAppend wf_jobDone wf_jobAppend wf_unlink_tmp)

lemma wf_run_from: "wf_state s \<Longrightarrow> wf_state (run cfg evs s)"
  unfolding run_def by (induction evs arbitrary: s) (auto intro: wf_step)

lemma wf_run: "wf_state (run cfg evs init_state)"
  by (rule wf_run_from [OF wf_init])

section \<open>Sequences of events\<close>

lemma known_fold_jobAppend [simp]: "known (fold (jobAppend j) ls s) j' = known s j'"
  by (induction ls arbitrary: s) auto

lemma children_fold_jobAppend [simp]: "children (fold (jobAppend j) ls s) = children s"
  by (induction ls arbitrary: s) auto

lemma listeners_fold_jobAppend [simp]: "listeners (fold (jobAppend j) ls s) j' = listeners s j'"
  by (induction ls arbitrary: s) auto

lemma sent_fold_jobAppend:
  "sent (fold (jobAppend j) ls s) c =
     (if c \<in> listeners s j then sent s c @ map Log ls else sent s c)"
  by (induction ls arbitrary: s) auto

lemma next_res_fold_jobAppend [simp]: "next_res (fold (jobAppend j) ls s) = next_res s"
  by (induction ls arbitrary: s) auto

lemma terminal_fold_jobAppend [simp]: "terminal (fold (jobAppend j) ls s) j' = terminal s j'"
  by (induction ls arbitrary: s) auto

lemma download_obs:
  "next_res (snd (download cfg parsed env s)) = next_res s"
  "sent (snd (download cfg parsed env s)) c = sent s c"
  "listeners (snd (download cfg parsed env s)) j' \<subseteq> listeners s j'"
  "known s j' \<Longrightarrow> known (snd (download cfg parsed env s)) j'"
  "j' \<noteq> io_rand env \<Longrightarrow> terminal (snd (download cfg parsed env s)) j' = terminal s j'"
  by (auto simp: download_def Let_def split: option.splits spawn_outcome.splits if_splits)

lemma download_listenersD:
  "c \<in> listeners (snd (download cfg parsed env s)) j' \<Longrightarrow> c \<in> listeners s j'"
  using download_obs(3) [of cfg parsed env s j'] by blast

lemma retired_step:
  assumes "c < next_res s" and "\<forall>j. c \<notin> listeners s j"
  shows "c < next_res (step cfg ev s) \<and> (\<forall>j. c \<notin> listeners (step cfg ev s) j)
         \<and> sent (step cfg ev s) c = sent s c"
proof (cases ev)
  case (Download parsed env)
  with assms show ?thesis
    by (auto simp: step_def download_obs dest: download_listenersD)
next
  case (Events jobId)
  with assms show ?thesis by (auto simp: step_def)
next
  case (ReqClose jobId res)
  with assms show ?thesis by (auto simp: step_def)
next
  case (ChildData h chunk)
  with assms show ?thesis by (auto simp: step_def onData_def sent_fold_jobAppend)
next
  case (ChildError h code msg)
  with assms show ?thesis by (auto simp: step_def onError_def)
next
  case (ChildClose h code)
  with assms show ?thesis by (auto simp: step_def onClose_def)
qed

lemma retired_run:
  "c < next_res s \<Longrightarrow> \<forall>j. c \<notin> listeners s j \<Longrightarrow> sent (run cfg evs s) c = sent s c"
  unfolding run_def
proof (induction evs arbitrary: s)
  case Nil
  then show ?case by simp
next
  case (Cons ev evs)
  from retired_step [OF Cons.prems, of cfg ev]
  have "c < next_res (step cfg ev s)" "\<forall>j. c \<notin> listeners (step cfg ev s) j"
    "sent (step cfg ev s) c = sent s c"
    by blast+
  with Cons.IH [of "step cfg ev s"] show ?case by simp
qed

lemma terminal_step:
  assumes "terminal s j \<noteq> None" and "\<not> reuses j ev"
  shows "terminal (step cfg ev s) j \<noteq> None"
  using assms
  by (cases ev) (auto simp: step_def download_obs onData_def onError_def onClose_def)

lemma terminal_run:
  "terminal s j \<noteq> None \<Longrightarrow> \<not> list_ex (reuses j) evs \<Longrightarrow> terminal (run cfg evs s) j \<noteq> None"
  unfolding run_def
proof (induction evs arbitrary: s)
  case Nil
  then show ?case by simp
next
  case (Cons ev evs)
  from Cons.prems have now: "terminal s j \<noteq> None" "\<not> reuses j ev"
    and later: "\<not> list_ex (reuses j) evs"
    by simp_all
  have "terminal (step cfg ev s) j \<noteq> None"
    by (rule terminal_step [OF now])
  from Cons.IH [OF this later] show ?case by simp
qed

lemma listeners_known: "c \<in> listeners s j \<Longrightarrow> known s j"
  by (auto simp: listeners_def known_def split: option.splits)

lemma wf_terminal_no_listeners: "wf_state s \<Longrightarrow> terminal s j \<noteq> None \<Longrightarrow> listeners s j = {}"
  by (auto simp: wf_state_def)

lemma known_step: "known s j \<Longrightarrow> known (step cfg ev s) j"
  by (cases ev) (auto simp: step_def download_obs onData_def onError_def onClose_def)

lemma known_run: "known s j \<Longrightarrow> known (run cfg evs s) j"
  unfolding run_def by (induction evs arbitrary: s) (auto intro: known_step)

lemma late_listener:
  assumes "wf_state s" and "known s j" and "terminal s j = Some code"
  shows "sent (run cfg evs (snd (events_route j s))) (next_res s)
           = map Log (slice_last 250 (retained s j)) @ [Done code]"
proof -
  from assms(1) have fresh: "sent s (next_res s) = []" "\<forall>j'. next_res s \<notin> listeners s j'"
    by (simp_all add: wf_state_def)
  from assms fresh have "next_res s < next_res (snd (events_route j s))"
    and "\<forall>j'. next_res s \<notin> listeners (snd (events_route j s)) j'"
    by simp_all
  then have "sent (run cfg evs (snd (events_route j s))) (next_res s)
      = sent (snd (events_route j s)) (next_res s)"
    by (rule retired_run)
  with assms fresh show ?thesis by simp
qed

section \<open>The bounded log\<close>

lemma reachable_log_bounded: "length (retained (run cfg evs init_state) j) \<le> 2000"
  using wf_run [of cfg evs] by (simp add: wf_state_def)

lemma slice_last_snoc:
  "0 < n \<Longrightarrow> slice_last n (slice_last n ys @ [x]) = slice_last n (ys @ [x])"
  by (cases "length ys < n") (auto simp: slice_last_def Suc_diff_le)

lemma retained_fold_jobAppend:
  "known s j \<Longrightarrow> ls \<noteq> [] \<Longrightarrow>
   retained (fold (jobAppend j) ls s) j = slice_last 2000 (retained s j @ ls)"
proof (induction ls rule: rev_induct)
  case Nil
  then show ?case by simp
next
  case (snoc x xs)
  show ?case
  proof (cases "xs = []")
    case True
    with snoc.prems show ?thesis by simp
  next
    case False
    with snoc have "retained (fold (jobAppend j) xs s) j = slice_last 2000 (retained s j @ xs)"
      by simp
    with snoc.prems show ?thesis
      by (simp add: slice_last_snoc)
  qed
qed

text \<open>
  C3. For every job of the registry and every sequence of more than 2000 appended lines, the
  retained log after the appends is the last 2000 appended lines in their order, and after
  each of the appends the log holds at most 2000 lines: the oldest lines are dropped, no
  new line is refused. (Before the first append the log of a reachable state holds at most
  2000 lines as well: \<open>reachable_log_bounded\<close>.)
\<close>

theorem retained_log_is_last_2000:
  assumes "known s j" and "2000 < length ls"
  shows "retained (fold (jobAppend j) ls s) j = drop (length ls - 2000) ls
         \<and> (\<forall>k. 0 < k \<and> k \<le> length ls \<longrightarrow>
               length (retained (fold (jobAppend j) (take k ls) s) j) \<le> 2000)"
proof -
  from assms have "ls \<noteq> []" by auto
  with assms have "retained (fold (jobAppend j) ls s) j = slice_last 2000 (retained s j @ ls)"
    by (simp add: retained_fold_jobAppend)
  also from assms have "\<dots> = drop (length ls - 2000) ls"
    by (simp add: slice_last_def)
  finally have final: "retained (fold (jobAppend j) ls s) j = drop (length ls - 2000) ls" .
  have "length (retained (fold (jobAppend j) (take k ls) s) j) \<le> 2000"
    if "0 < k" "k \<le> length ls" for k
  proof -
    from that have "take k ls \<noteq> []" by auto
    with assms show ?thesis
      by (simp add: retained_fold_jobAppend length_slice_last)
  qed
  with final show ?thesis by blast
qed

theorem retained_log_is_last_2000_witness:
  "retained (fold (jobAppend ''0123456789abcdef'') (map nat_to_string [0..<2001]) one_job_state)
     ''0123456789abcdef'' = map nat_to_string [1..<2001]"
proof -
  have k: "known one_job_state ''0123456789abcdef''"
    by code_simp
  have l: "2000 < length (map nat_to_string [0..<2001])"
    by simp
  from retained_log_is_last_2000 [OF k l] show ?thesis
    by (simp add: drop_map)
qed

section \<open>The scenarios' states\<close>

lemma wf_one_job_state: "wf_state one_job_state"
  unfolding one_job_state_def by (rule wf_download [OF wf_init])

lemma one_job_state_job:
  "known one_job_state ''0123456789abcdef''"
  "terminal one_job_state ''0123456789abcdef'' = None"
  "retained one_job_state ''0123456789abcdef'' = []"
  "listeners one_job_state ''0123456789abcdef'' = {}"
  "next_res one_job_state = 0"
  "sent one_job_state 0 = []"
  by code_simp+

lemma many_lines_state_job:
  "wf_state many_lines_state"
  "known many_lines_state ''0123456789abcdef''"
  "terminal many_lines_state ''0123456789abcdef'' = None"
  "retained many_lines_state ''0123456789abcdef'' = map nat_to_string [0..<300]"
  "next_res many_lines_state = 0"
  unfolding many_lines_state_def
  by (simp_all add: wf_fold_jobAppend wf_one_job_state one_job_state_job
        retained_fold_jobAppend slice_last_def next_res_fold_jobAppend)

lemma listening_state_job:
  "wf_state listening_state"
  "0 \<in> listeners listening_state ''0123456789abcdef''"
  "sent listening_state 0 = [Log ''[download] 10%'']"
  unfolding listening_state_def
  by (simp_all add: wf_jobAppend wf_events_route wf_one_job_state one_job_state_job
        slice_last_def)

section \<open>Attaching a listener\<close>

text \<open>
  C4. In a state of the server, for a job that is not terminal and retains more than 250
  lines, \<open>GET /api/events/:jobId\<close> opens an event stream on a fresh response; what that
  response has received is exactly the last 250 retained lines, in their order; the
  response is registered as a listener, so that every line appended afterwards follows the
  replay, in order, until the listener detaches (the lines appended after that do not reach
  it) or the job completes (the terminal event is the last one).
\<close>

theorem events_route_replays_last_250:
  assumes "wf_state s" and "known s j" and "terminal s j = None"
    and "250 < length (retained s j)"
  shows "fst (events_route j s) = EventStream (next_res s)
    \<and> length (drop (length (retained s j) - 250) (retained s j)) = 250
    \<and> sent (snd (events_route j s)) (next_res s)
        = map Log (drop (length (retained s j) - 250) (retained s j))
    \<and> next_res s \<in> listeners (snd (events_route j s)) j
    \<and> (\<forall>ls. sent (fold (jobAppend j) ls (snd (events_route j s))) (next_res s)
          = map Log (drop (length (retained s j) - 250) (retained s j)) @ map Log ls)
    \<and> (\<forall>ls l. sent (jobAppend j l (detach j (next_res s)
                    (fold (jobAppend j) ls (snd (events_route j s))))) (next_res s)
          = map Log (drop (length (retained s j) - 250) (retained s j)) @ map Log ls)
    \<and> (\<forall>ls l code. sent (jobAppend j l (jobDone j code
                    (fold (jobAppend j) ls (snd (events_route j s))))) (next_res s)
          = map Log (drop (length (retained s j) - 250) (retained s j)) @ map Log ls
            @ [Done code])"
proof -
  from assms(1) have fresh: "sent s (next_res s) = []"
    by (simp add: wf_state_def)
  from assms(2) obtain job where job: "jobs s j = Some job"
    by (auto simp: known_def)
  with assms(3) have "fst (events_route j s) = EventStream (next_res s)"
    by (simp add: events_route_def terminal_def Let_def)
  moreover from assms(4) have "length (drop (length (retained s j) - 250) (retained s j)) = 250"
    by simp
  moreover from assms fresh have replay: "sent (snd (events_route j s)) (next_res s)
      = map Log (drop (length (retained s j) - 250) (retained s j))"
    by (simp add: slice_last_def)
  moreover from assms have member: "next_res s \<in> listeners (snd (events_route j s)) j"
    by simp
  moreover from replay member
  have "sent (fold (jobAppend j) ls (snd (events_route j s))) (next_res s)
          = map Log (drop (length (retained s j) - 250) (retained s j)) @ map Log ls" for ls
    by (simp only: sent_fold_jobAppend if_True)
  moreover from replay member
  have "sent (jobAppend j l (detach j (next_res s)
                    (fold (jobAppend j) ls (snd (events_route j s))))) (next_res s)
          = map Log (drop (length (retained s j) - 250) (retained s j)) @ map Log ls" for ls l
    by (simp add: sent_fold_jobAppend del: events_route_obs)
  moreover from replay member
  have "sent (jobAppend j l (jobDone j code
                    (fold (jobAppend j) ls (snd (events_route j s))))) (next_res s)
          = map Log (drop (length (retained s j) - 250) (retained s j)) @ map Log ls
            @ [Done code]" for ls l code
    by (simp add: sent_fold_jobAppend del: events_route_obs)
  ultimately show ?thesis by blast
qed


theorem events_route_replays_last_250_witness:
  "fst (events_route ''0123456789abcdef'' many_lines_state) = EventStream 0
   \<and> sent (snd (events_route ''0123456789abcdef'' many_lines_state)) 0
       = map Log (map nat_to_string [50..<300])"
proof -
  have long: "250 < length (retained many_lines_state ''0123456789abcdef'')"
    by (simp add: many_lines_state_job)
  from events_route_replays_last_250 [OF many_lines_state_job(1-3) long]
  show ?thesis
    by (simp add: many_lines_state_job drop_map)
qed

section \<open>Completing a job\<close>

text \<open>
  C2. In a state of the server, for every job, every exit code and every listener attached
  to the job when \<open>jobDone\<close> is called: whatever the server does afterwards, what the
  listener has received is what it had received before (log events only) followed by one
  \<open>done\<close> event with that exit code, so the terminal event comes once and last. As long
  as the random generator does not repeat the job's identifier, a line appended to the job
  after completion changes what no response has received, and a listener that attaches
  after completion receives the replayed lines and then the \<open>done\<close> event, which stays its
  last event.
\<close>

theorem jobDone_is_last_event:
  assumes "wf_state s" and "c \<in> listeners s j" and "s' = run cfg evs (jobDone j code s)"
  shows "sent s' c = sent s c @ [Done code]
    \<and> list_all is_log (sent s c)
    \<and> (\<not> list_ex (reuses j) evs \<longrightarrow>
          (\<forall>l. sent (jobAppend j l s') = sent s')
          \<and> (\<exists>code'. terminal s' j = Some code'
                \<and> (\<forall>evs'. sent (run cfg evs' (snd (events_route j s'))) (next_res s')
                             = map Log (slice_last 250 (retained s' j)) @ [Done code'])))"
proof -
  from assms(1,2) have old: "c < next_res s"
    by (auto simp: wf_state_def not_le [symmetric])
  from assms(1,2) have only: "c \<notin> listeners s j'" if "j' \<noteq> j" for j'
    using that by (auto simp: wf_state_def)
  from assms(1,2) have logs: "list_all is_log (sent s c)"
    by (auto simp: wf_state_def)
  from old have "c < next_res (jobDone j code s)" by simp
  moreover from only have "\<forall>j'. c \<notin> listeners (jobDone j code s) j'" by simp
  ultimately have "sent (run cfg evs (jobDone j code s)) c = sent (jobDone j code s) c"
    by (rule retired_run)
  with assms(2,3) have last: "sent s' c = sent s c @ [Done code]"
    by simp
  from assms(1,3) have wf': "wf_state s'"
    by (simp add: wf_run_from wf_jobDone)
  from assms(2,3) have known': "known s' j"
    by (simp add: known_run listeners_known)
  have after: "(\<forall>l. sent (jobAppend j l s') = sent s')
          \<and> (\<exists>code'. terminal s' j = Some code'
                \<and> (\<forall>evs'. sent (run cfg evs' (snd (events_route j s'))) (next_res s')
                             = map Log (slice_last 250 (retained s' j)) @ [Done code']))"
    if fresh: "\<not> list_ex (reuses j) evs"
  proof -
    from assms(2) have "terminal (jobDone j code s) j \<noteq> None"
      by (simp add: listeners_known)
    then have "terminal (run cfg evs (jobDone j code s)) j \<noteq> None"
      using fresh by (rule terminal_run)
    with assms(3) obtain code' where code': "terminal s' j = Some code'"
      by auto
    with wf' have "listeners s' j = {}"
      by (simp add: wf_terminal_no_listeners)
    then have "\<forall>l. sent (jobAppend j l s') = sent s'"
      by (simp add: fun_eq_iff)
    moreover from late_listener [OF wf' known' code']
    have "\<forall>evs'. sent (run cfg evs' (snd (events_route j s'))) (next_res s')
                  = map Log (slice_last 250 (retained s' j)) @ [Done code']"
      by blast
    ultimately show ?thesis using code' by blast
  qed
  from last logs after show ?thesis by blast
qed

theorem jobDone_is_last_event_witness:
  "sent (run example_config [ChildData 0 ''late line'', Events ''0123456789abcdef'', ChildClose 0 (Some 1)]
           (jobDone ''0123456789abcdef'' 0 listening_state)) 0
     = [Log ''[download] 10%'', Done 0]"
  using jobDone_is_last_event [OF listening_state_job(1,2) refl, of example_config
          "[ChildData 0 ''late line'', Events ''0123456789abcdef'', ChildClose 0 (Some 1)]" 0]
  by (simp add: listening_state_job)

section \<open>A launch that fails\<close>

text \<open>
  C8. For every download request that reaches the launch (it has a URL or a valid
  identifier, its identifier list was written in bulk mode, its cookie source is absent or
  allowed) and whose \<open>spawnYtDlp\<close> call throws: the handler answers 200 with the job
  identifier and the item count, the job's log is the one line that describes the failure,
  and the job is terminal with the exit code -1.
\<close>

theorem launch_failure_is_recorded:
  assumes "has_target body" and "list_written body env" and "cookies_ok body"
    and "io_spawn env = SpawnThrows msg"
  shows "fst (download cfg (Some body) env s) = Accepted (io_rand env) (item_count body) None
    \<and> status (fst (download cfg (Some body) env s)) = 200
    \<and> retained (snd (download cfg (Some body) env s)) (io_rand env) = [launch_failed_line cfg msg]
    \<and> terminal (snd (download cfg (Some body) env s)) (io_rand env) = Some (- 1)"
  using assms
  by (auto simp: download_def Let_def has_target_def list_written_def cookies_ok_def
        item_count_def slice_last_def split: option.splits)

theorem launch_failure_is_recorded_witness:
  "fst (download example_config (Some videoOnly_request) throwing_io init_state)
     = Accepted ''0123456789abcdef'' 1 None
   \<and> retained (snd (download example_config (Some videoOnly_request) throwing_io init_state))
        ''0123456789abcdef''
     = [''Failed to start yt-dlp (yt-dlp). Set YTDLP_BIN to full path. spawn yt-dlp ENOENT'']
   \<and> terminal (snd (download example_config (Some videoOnly_request) throwing_io init_state))
        ''0123456789abcdef'' = Some (- 1)"
proof -
  have a: "has_target videoOnly_request" by code_simp
  have b: "list_written videoOnly_request throwing_io" by code_simp
  have c: "cookies_ok videoOnly_request" by code_simp
  have d: "io_spawn throwing_io = SpawnThrows ''spawn yt-dlp ENOENT''" by code_simp
  have e: "io_rand throwing_io = ''0123456789abcdef''" by code_simp
  have f: "item_count videoOnly_request = 1" by code_simp
  have g: "launch_failed_line example_config ''spawn yt-dlp ENOENT''
     = ''Failed to start yt-dlp (yt-dlp). Set YTDLP_BIN to full path. spawn yt-dlp ENOENT''"
    by code_simp
  from launch_failure_is_recorded [OF a b c d, of example_config init_state]
  show ?thesis by (simp add: e f g)
qed

section \<open>A cookie source that is refused\<close>






section \<open>The temporary file of a refused request\<close>

text \<open>The other ways out of the handler do remove the file: the \<open>close\<close> and \<open>error\<close>
  handlers of a launched process, which hold its path, and the \<open>catch\<close> of a launch that
  throws.\<close>

lemma tmp_file_removed_by_handlers:
  "child_tmp ch = Some p \<Longrightarrow> tmp_files (onClose ch code s) p = None"
  "child_tmp ch = Some p \<Longrightarrow> tmp_files (onError ch ecode msg s) p = None"
  by (simp_all add: onClose_def onError_def unlink_tmp_def)

lemma tmp_file_removed_when_launch_throws:
  assumes "has_target body" and "list_written body env" and "cookies_ok body"
    and "io_spawn env = SpawnThrows msg"
  shows "tmp_files (snd (download cfg (Some body) env s))
           (path_join [tmpdir cfg, ''ytdlp-ui-'' @ io_rand env @ ''.txt'']) =
         (if filter isValidYtId (req_ids body) \<noteq> [] then None
          else tmp_files s (path_join [tmpdir cfg, ''ytdlp-ui-'' @ io_rand env @ ''.txt'']))"
  using assms
  by (auto simp: download_def Let_def has_target_def list_written_def cookies_ok_def
        unlink_tmp_def write_tmp_def register_job_def split: option.splits)

lemma tmp_file_handed_to_child:
  assumes "has_target body" and "list_written body env" and "cookies_ok body"
    and "io_spawn env = Spawned" and "filter isValidYtId (req_ids body) \<noteq> []"
  shows "children (snd (download cfg (Some body) env s)) \<noteq> []
    \<and> child_tmp (last (children (snd (download cfg (Some body) env s))))
        = Some (path_join [tmpdir cfg, ''ytdlp-ui-'' @ io_rand env @ ''.txt''])"
  using assms
  by (auto simp: download_def Let_def has_target_def list_written_def cookies_ok_def
        split: option.splits)

text \<open>
  C6. The temporary identifier list of a bulk request should be removed on every path
  through the handler. The request \<open>{ids: ["f4g1xtyY3uo"], cookiesFromBrowser: "safari"}\<close>
  is a bulk request; the handler writes its list to the temporary file and then answers
  400 for the cookie source. The file is still there, and no process was launched whose
  \<open>close\<close> or \<open>error\<close> handler would remove it.
\<close>

theorem cookie_rejection_leaks_tmp_file:
  "fst (download example_config (Some bulk_safari_request) spawned_io init_state)
     = BadRequest ''cookiesFromBrowser must be one of: chrome, edge, firefox''
   \<and> tmp_files (snd (download example_config (Some bulk_safari_request) spawned_io init_state))
        ''/tmp/ytdlp-ui-0123456789abcdef.txt''
     = Some (''https://www.youtube.com/watch?v=f4g1xtyY3uo'' @ [CHR 0x0A])
   \<and> children (snd (download example_config (Some bulk_safari_request) spawned_io init_state)) = []"
  by code_simp

section \<open>Serving a file of a job\<close>

text \<open>For a job whose directory is an absolute, normalised path, every name whose
  \<open>safeBasename\<close> is neither empty nor \<open>.\<close> nor \<open>..\<close> resolves to an entry of that
  directory.\<close>

lemma safeBasename_no_separator: "CHR ''/'' \<notin> set (safeBasename name)"
  by (auto simp: safeBasename_def unsafe_char_def)

lemma split_path_nonempty [simp]: "split_path xs \<noteq> []"
  by (induction xs) (auto split: list.splits)

lemma split_path_segment: "CHR ''/'' \<notin> set f \<Longrightarrow> split_path f = [f]"
  by (induction f) auto

lemma split_path_append: "split_path (a @ CHR ''/'' # b) = split_path a @ split_path b"
  by (induction a) (auto split: list.splits)

lemma join_with_snoc:
  "join_with sep (xs @ [y]) = (if xs = [] then y else join_with sep xs @ sep @ y)"
  by (induction sep xs rule: join_with.induct) auto

lemma path_join_child:
  assumes abs: "hd dir = CHR ''/''" and open_end: "last dir \<noteq> CHR ''/''"
    and norm: "path_normalize dir = dir"
    and seg: "CHR ''/'' \<notin> set f" and name: "f \<noteq> []" "f \<noteq> ''.''" "f \<noteq> ''..''"
  shows "path_join [dir, f] = dir @ ''/'' @ f"
proof -
  from norm have dir: "dir \<noteq> []"
    by (auto simp: path_normalize_def)
  let ?K = "fold (normalize_step False) (split_path dir) []"
  let ?res = "join_with ''/'' (rev ?K)"
  from norm dir abs open_end have res: "?res \<noteq> []" and shape: "dir = ''/'' @ ?res"
    by (auto simp: path_normalize_def normalizeString_def Let_def split: if_splits)
  then have K: "rev ?K \<noteq> []"
    by auto
  from seg have "split_path (dir @ ''/'' @ f) = split_path dir @ [f]"
    by (simp add: split_path_append split_path_segment)
  with name have "normalizeString False (dir @ ''/'' @ f) = rev ?K @ [f]"
    by (simp add: normalizeString_def)
  with K have joined: "join_with ''/'' (normalizeString False (dir @ ''/'' @ f)) = ?res @ ''/'' @ f"
    by (simp add: join_with_snoc)
  from name(1) have "last f \<in> set f"
    by (rule last_in_set)
  with seg have "last f \<noteq> CHR ''/''"
    by auto
  with name(1) have "last (dir @ ''/'' @ f) \<noteq> CHR ''/''"
    by simp
  with dir abs joined name have "path_normalize (dir @ ''/'' @ f) = ''/'' @ ?res @ ''/'' @ f"
    by (simp add: path_normalize_def Let_def)
  with shape have "path_normalize (dir @ ''/'' @ f) = dir @ ''/'' @ f"
    by simp
  with dir name show ?thesis
    by (simp add: path_join_def)
qed

lemma startsWith_append [simp]: "startsWith (p @ q) p"
  by (induction p) auto

lemma file_route_stays_inside:
  assumes "jobs s jobId = Some job" and "downloadsDir job = Some dir"
    and "hd dir = CHR ''/''" and "last dir \<noteq> CHR ''/''" and "path_normalize dir = dir"
    and "safeBasename rawName \<notin> {[], ''.'', ''..''}"
  shows "file_route exists jobId rawName s =
           (if exists (dir @ ''/'' @ safeBasename rawName)
            then FileStream (dir @ ''/'' @ safeBasename rawName) (safeBasename (safeBasename rawName))
            else NotFound)
         \<and> inside_dir dir (dir @ ''/'' @ safeBasename rawName)"
proof -
  from assms(5) have dir: "dir \<noteq> []"
    by (auto simp: path_normalize_def)
  from assms(6) have name: "safeBasename rawName \<noteq> []" "safeBasename rawName \<noteq> ''.''"
    "safeBasename rawName \<noteq> ''..''"
    by auto
  from path_join_child [OF assms(3-5) safeBasename_no_separator name]
  have "path_join [dir, safeBasename rawName] = dir @ ''/'' @ safeBasename rawName" .
  with assms(1,2) dir name(1) show ?thesis
    using startsWith_append [of "dir @ ''/''" "safeBasename rawName"]
    by (simp add: file_route_def inside_dir_def Let_def)
qed

lemma file_route_blocks_deep_traversal:
  "file_route parent_exists ''0123456789abcdef'' ''../../../etc/passwd'' one_job_state = NotFound"
  by code_simp

text \<open>
  C1. The path that \<open>GET /api/file/:jobId/:name\<close> serves should lie inside the job's
  directory for every requested name. For the name \<open>x/..\<close> (\<open>x%2F..\<close> in the URL)
  \<open>safeBasename\<close> returns \<open>..\<close>, and the handler resolves the parent of the job's directory,
  finds that it exists and answers 200 for it instead of 404.
\<close>

theorem file_route_serves_parent_directory:
  "map_option downloadsDir (jobs one_job_state ''0123456789abcdef'')
     = Some (Some ''/home/user/Downloads/ytdlp-ui/0123456789abcdef'')
   \<and> safeBasename ''x/..'' = ''..''
   \<and> file_route parent_exists ''0123456789abcdef'' ''x/..'' one_job_state
     = FileStream ''/home/user/Downloads/ytdlp-ui'' ''..''
   \<and> \<not> inside_dir ''/home/user/Downloads/ytdlp-ui/0123456789abcdef'' ''/home/user/Downloads/ytdlp-ui''"
  by code_simp

section \<open>Lines that cross a chunk boundary\<close>

text \<open>The listing's handler, which buffers the partial last line, does handle the same
  lines for every way of cutting a text into chunks.\<close>

lemma split_lines_nonempty [simp]: "split_lines xs \<noteq> []"
  by (induction xs rule: split_lines.induct) (auto split: list.splits)

lemma split_lines_plain:
  "c \<noteq> CHR 0x0A \<Longrightarrow> \<not> (c = CHR 0x0D \<and> cs \<noteq> [] \<and> hd cs = CHR 0x0A) \<Longrightarrow>
   split_lines (c # cs) = (c # hd (split_lines cs)) # tl (split_lines cs)"
  by (cases "split_lines cs") auto

lemma split_lines_single: "split_lines xs = [l] \<Longrightarrow> l = xs"
proof (induction xs arbitrary: l)
  case Nil
  then show ?case by simp
next
  case (Cons c cs)
  from Cons.prems have plain: "c \<noteq> CHR 0x0A" "\<not> (c = CHR 0x0D \<and> cs \<noteq> [] \<and> hd cs = CHR 0x0A)"
    by (auto split: if_splits)
  from Cons.prems have "(c # hd (split_lines cs)) # tl (split_lines cs) = [l]"
    by (simp only: split_lines_plain [OF plain])
  then have "split_lines cs = [tl l]" and "l = c # tl l"
    by (cases "split_lines cs"; auto)+
  with Cons.IH [of "tl l"] show ?case
    by simp
qed

lemma split_lines_append:
  "split_lines (a @ b) = butlast (split_lines a) @ split_lines (last (split_lines a) @ b)"
proof (induction a rule: split_lines.induct)
  case 1
  show ?case by simp
next
  case (2 c cs)
  show ?case
  proof (cases "c = CHR 0x0A")
    case True
    with "2.IH"(1) show ?thesis by simp
  next
    case lf: False
    show ?thesis
    proof (cases "c = CHR 0x0D \<and> cs \<noteq> [] \<and> hd cs = CHR 0x0A")
      case True
      then obtain cs' where cs: "cs = CHR 0x0A # cs'" by (cases cs) auto
      with True lf "2.IH"(2) show ?thesis by simp
    next
      case plain: False
      show ?thesis
      proof (cases "cs = []")
        case True
        with lf show ?thesis by simp
      next
        case False
        with plain have ahead: "\<not> (c = CHR 0x0D \<and> cs @ b \<noteq> [] \<and> hd (cs @ b) = CHR 0x0A)"
          by auto
        from "2.IH"(3) [OF lf plain]
        have IH: "split_lines (cs @ b)
                    = butlast (split_lines cs) @ split_lines (last (split_lines cs) @ b)" .
        have whole: "split_lines (c # cs) = (c # hd (split_lines cs)) # tl (split_lines cs)"
          by (rule split_lines_plain [OF lf plain])
        have joined: "split_lines ((c # cs) @ b)
                        = (c # hd (split_lines (cs @ b))) # tl (split_lines (cs @ b))"
          using split_lines_plain [OF lf ahead] by simp
        obtain l ls where S: "split_lines cs = l # ls"
          by (cases "split_lines cs") auto
        show ?thesis
        proof (cases ls)
          case Nil
          with S have "l = cs" by (simp add: split_lines_single)
          with S Nil whole have "split_lines (c # cs) = [c # cs]" by simp
          then show ?thesis by (simp del: split_lines.simps)
        next
          case (Cons l2 rest)
          with S IH have "hd (split_lines (cs @ b)) = l"
            and "tl (split_lines (cs @ b))
                   = butlast (l2 # rest) @ split_lines (last (l2 # rest) @ b)"
            by simp_all
          with S Cons whole joined show ?thesis
            by (simp del: split_lines.simps)
        qed
      qed
    qed
  qed
qed

lemma last_split_lines_no_break: "CHR 0x0A \<notin> set (last (split_lines xs))"
  by (induction xs rule: split_lines.induct) (auto split: list.splits if_splits)

lemma no_break_single: "CHR 0x0A \<notin> set xs \<Longrightarrow> split_lines xs = [xs]"
proof (induction xs)
  case Nil
  show ?case by simp
next
  case (Cons c cs)
  then have lf: "c \<noteq> CHR 0x0A" and rest: "CHR 0x0A \<notin> set cs" by auto
  from rest have "\<not> (c = CHR 0x0D \<and> cs \<noteq> [] \<and> hd cs = CHR 0x0A)"
    by (cases cs) auto
  from split_lines_plain [OF lf this] Cons.IH [OF rest] show ?case by simp
qed

lemma list_framer_fold:
  "split_lines buf = [buf] \<Longrightarrow>
   fold list_onData chunks (buf, out)
     = (last (split_lines (buf @ concat chunks)), out @ butlast (split_lines (buf @ concat chunks)))"
proof (induction chunks arbitrary: buf out)
  case Nil
  then show ?case by simp
next
  case (Cons c chunks)
  let ?P = "split_lines (buf @ c)"
  have one: "list_onData c (buf, out) = (last ?P, out @ butlast ?P)"
    by (simp add: list_onData_def Let_def)
  have "split_lines (last ?P) = [last ?P]"
    by (rule no_break_single [OF last_split_lines_no_break])
  from Cons.IH [OF this, of "out @ butlast ?P"] one
  have "fold list_onData (c # chunks) (buf, out)
      = (last (split_lines (last ?P @ concat chunks)),
         (out @ butlast ?P) @ butlast (split_lines (last ?P @ concat chunks)))"
    by (simp only: fold_simps)
  moreover have "split_lines (buf @ concat (c # chunks))
      = butlast ?P @ split_lines (last ?P @ concat chunks)"
    using split_lines_append [of "buf @ c" "concat chunks"] by simp
  ultimately show ?case
    by (simp add: butlast_append)
qed

lemma list_framer_chunking:
  "concat chunks = text \<Longrightarrow> fold list_onData chunks ([], []) = fold list_onData [text] ([], [])"
  by (simp add: list_framer_fold list_onData_def Let_def)

text \<open>
  C9. Feeding a text to the job log in chunks should give the lines that feeding it whole
  gives. The \<open>data\<close> handler of a download splits every chunk on its own and keeps no
  remainder: the text \<open>ab\<close> with a line feed gives the line \<open>ab\<close> as one chunk, and the two
  lines \<open>a\<close> and \<open>b\<close> when the chunks are \<open>a\<close> and \<open>b\<close> with the line feed.
\<close>

theorem onData_splits_lines_at_chunk_boundaries:
  "retained (run example_config [ChildData 0 (''ab'' @ [CHR 0x0A])] one_job_state)
      ''0123456789abcdef'' = [''ab'']
   \<and> retained (run example_config [ChildData 0 ''a'', ChildData 0 (''b'' @ [CHR 0x0A])] one_job_state)
      ''0123456789abcdef'' = [''a'', ''b'']"
  by code_simp

section \<open>The argument list of a video-only request\<close>

text \<open>
  C5. A request with \<open>videoOnly: true\<close> and \<open>quality: 720\<close> should get a \<open>-f\<close> selector for
  \<open>bestvideo[height<=720]\<close> without a \<open>+bestaudio\<close> combinator and a remux to mp4. The handler
  never reads \<open>videoOnly\<close>: at the request of the repository's own test the process is
  launched with the selector \<open>bestvideo[height<=720]+bestaudio/best[height<=720]\<close>, the
  argument list contains \<open>+bestaudio\<close>, and it asks for \<open>--merge-output-format mp4\<close>, not for
  \<open>--remux-video\<close>.
\<close>

theorem download_videoOnly_keeps_bestaudio:
  "fst (download example_config (Some videoOnly_request) spawned_io init_state)
     = Accepted ''0123456789abcdef'' 1 (Some ''/home/user/Downloads/ytdlp-ui/0123456789abcdef'')
   \<and> map child_args (children (snd (download example_config (Some videoOnly_request) spawned_io init_state)))
     = [[''-i'', ''--yes-playlist'', ''--newline'', ''--no-warnings'',
         ''--download-archive'', ''/home/user/Downloads/ytdlp-ui/.ytdlp-archive.txt'',
         ''-P'', ''/home/user/Downloads/ytdlp-ui/0123456789abcdef'',
         ''-o'', ''%(upload_date)s - %(title)s [%(id)s].%(ext)s'',
         ''--merge-output-format'', ''mp4'',
         ''-f'', ''bestvideo[height<=720]+bestaudio/best[height<=720]'',
         ''https://example.com/watch?v=f4g1xtyY3uo'']]
   \<and> str_includes ''bestvideo[height<=720]+bestaudio/best[height<=720]'' ''+bestaudio''
   \<and> ''--remux-video'' \<notin> set (concat (map child_args
         (children (snd (download example_config (Some videoOnly_request) spawned_io init_state)))))"
  by code_simp

section \<open>Listing the files of a job\<close>




end
